theory Spec2Isabelle
  imports Complex_Main
begin

section \<open>The AI controller of the fighting game (public/js/ai.js)\<close>

text \<open>
  The class \<open>AIController\<close> is embedded by explicit state passing: its fields are a
  record, every method that writes a field returns the updated record, and the calls of
  \<open>Math.random()\<close> read an explicit source of draws that is threaded through.

  JavaScript numbers are modelled as \<open>real\<close>: the arithmetic of the controller
  (subtracting 1, adding a product, comparing) is exact on reals, and the clock values,
  positions and draws of the concrete calls below are dyadic fractions, on which IEEE
  doubles compute the same values.
  \<open>strikeCount\<close> only ever counts up from 0 by steps of 1 and is read modulo 3, so it is
  a \<open>nat\<close>.
\<close>

subsection \<open>Data\<close>

datatype direction = Left | Right

text \<open>
  The action objects: \<open>{idle: true}\<close>, \<open>{move: d}\<close>, \<open>{attack: true}\<close> and
  \<open>{jump: true, moveDirection: d}\<close>. A value that may also be \<open>null\<close> or
  \<open>undefined\<close> is an \<open>action option\<close>, with \<open>None\<close> for both (the code only tests
  such a value for truthiness).
\<close>

datatype action = Idle | Move direction | Attack | Jump direction

record difficultyParams =
  aggressiveness :: real
  defensiveness :: real
  attackRange :: real
  comfortDistance :: real
  jumpChance :: real
  mistakes :: real
  attackCooldownMin :: real
  attackCooldownMax :: real

text \<open>The fields of a fighter that the controller reads.\<close>

record fighter =
  position_x :: real
  width :: real
  dead :: bool
  isAttacking :: bool

record engine =
  difficulty :: string
  state :: string
  reactionTime :: real
  lastDecisionTime :: real
  currentAction :: "action option"
  actionDuration :: real
  attackCooldown :: real
  jumpCooldown :: real
  strikeCount :: nat
  params :: difficultyParams

subsection \<open>Doubles\<close>

text \<open>
  The finite IEEE 754 double-precision numbers are the reals \<open>m * 2^a / 2^b\<close> with an
  integer \<open>m\<close> of magnitude below \<open>2^53\<close>, \<open>a \<le> 971\<close> and \<open>b \<le> 1074\<close>. Every number
  the program holds is one of them, and an arithmetic operation of the program whose
  exact result is one of them returns that result unrounded. The embedding computes
  exactly; where an operation of the code can round, and the rounding can change what
  the code does, a theorem asks for the exact result to be a double, or keeps the
  rounding error away from the threshold that decides.
\<close>

definition exactDouble :: "real \<Rightarrow> bool" where
  "exactDouble x =
     (\<exists>m :: int. \<exists>a b :: nat.
        \<bar>m\<bar> < 2 ^ 53 \<and> a \<le> 971 \<and> b \<le> 1074 \<and> x = real_of_int m * 2 ^ a / 2 ^ b)"

subsection \<open>The random source\<close>

text \<open>
  The draws that \<open>Math.random()\<close> will return, in order: \<open>r 0\<close> is the next one.
  \<open>Math.random()\<close> returns a number in \<open>[0, 1)\<close>; \<open>unitDraws\<close> says so of a source.
\<close>

type_synonym rng = "nat \<Rightarrow> real"

definition random :: "rng \<Rightarrow> real \<times> rng" where
  "random r = (r 0, \<lambda>n. r (Suc n))"

definition unitDraws :: "rng \<Rightarrow> bool" where
  "unitDraws r = (\<forall>n. 0 \<le> r n \<and> r n < 1)"

text \<open>A source that returns the listed draws, then 0 for ever.\<close>

definition scripted :: "real list \<Rightarrow> rng" where
  "scripted ds = (\<lambda>n. if n < length ds then ds ! n else 0)"

subsection \<open>Configuration\<close>

definition getReactionTime :: "string \<Rightarrow> real" where
  "getReactionTime d =
     (if d = ''easy'' then 1200
      else if d = ''medium'' then 400
      else if d = ''hard'' then 150
      else 400)"

function getDifficultyParams :: "string \<Rightarrow> difficultyParams" where
  "getDifficultyParams d =
     (if d = ''easy'' then
        \<lparr>aggressiveness = 0.9, defensiveness = 0.6, attackRange = 190,
         comfortDistance = 320, jumpChance = 0.12, mistakes = 0.5,
         attackCooldownMin = 120, attackCooldownMax = 120\<rparr>
      else if d = ''medium'' then
        \<lparr>aggressiveness = 0.28, defensiveness = 0.35, attackRange = 195,
         comfortDistance = 200, jumpChance = 0.22, mistakes = 0.25,
         attackCooldownMin = 180, attackCooldownMax = 240\<rparr>
      else if d = ''hard'' then
        \<lparr>aggressiveness = 0.38, defensiveness = 0.45, attackRange = 220,
         comfortDistance = 170, jumpChance = 0.3, mistakes = 0.12,
         attackCooldownMin = 90, attackCooldownMax = 150\<rparr>
      else getDifficultyParams ''medium'')"
  by pat_completeness auto
termination
  by (relation "measure (\<lambda>d. if d = ''medium'' then 0 else 1)") auto

declare getDifficultyParams.simps [simp del]

text \<open>\<open>new AIController(difficulty)\<close>; the parameter defaults to \<open>'medium'\<close>.\<close>

definition AIController :: "string option \<Rightarrow> engine" where
  "AIController arg =
     (let d = (case arg of None \<Rightarrow> ''medium'' | Some x \<Rightarrow> x) in
      \<lparr>difficulty = d, state = ''idle'', reactionTime = getReactionTime d,
       lastDecisionTime = 0, currentAction = None, actionDuration = 0,
       attackCooldown = 0, jumpCooldown = 0, strikeCount = 0,
       params = getDifficultyParams d\<rparr>)"

definition setDifficulty :: "string \<Rightarrow> engine \<Rightarrow> engine" where
  "setDifficulty d e =
     e\<lparr>difficulty := d, reactionTime := getReactionTime d,
       params := getDifficultyParams d\<rparr>"

subsection \<open>Helpers of the decision\<close>

definition getIdleActions :: action where
  "getIdleActions = Idle"

definition continueCurrentAction :: "engine \<Rightarrow> action option" where
  "continueCurrentAction e =
     (case currentAction e of Some a \<Rightarrow> Some a | None \<Rightarrow> Some getIdleActions)"

definition getDistance :: "fighter \<Rightarrow> fighter \<Rightarrow> real" where
  "getDistance fighter1 fighter2 =
     (let center1 = position_x fighter1 + width fighter1 / 2;
          center2 = position_x fighter2 + width fighter2 / 2
      in \<bar>center1 - center2\<bar>)"

text \<open>
  The array \<open>actions\<close> of \<open>makeRandomAction\<close>, and the read
  \<open>actions[Math.floor(Math.random() * actions.length)]\<close>, which is \<open>undefined\<close>
  outside the array. The product is exact here. The code's product is the nearest
  double, and doubles from 4 to 8 are \<open>1 / 2^50\<close> apart (closer below 4): a product
  within \<open>1 / 2^50\<close> below a whole number can round up to it and select the next
  action, and no other product changes its floor by rounding.
\<close>

definition actions :: "action list" where
  "actions = [getIdleActions, Move Left, Move Right, Attack, Jump Left, Jump Right]"

definition makeRandomAction :: "rng \<Rightarrow> action option \<times> rng" where
  "makeRandomAction r =
     (let (u, r') = random r;
          i = \<lfloor>u * real (length actions)\<rfloor>
      in (if 0 \<le> i \<and> i < int (length actions) then Some (actions ! nat i) else None, r'))"

text \<open>
  A condition of the form \<open>c && Math.random() < p\<close>: the draw is made only when
  \<open>c\<close> holds.
\<close>

definition andRandomLess :: "bool \<Rightarrow> real \<Rightarrow> rng \<Rightarrow> bool \<times> rng" where
  "andRandomLess c p r =
     (if c then (let (u, r') = random r in (u < p, r')) else (False, r))"

subsection \<open>The decision cascade\<close>

text \<open>
  \<open>makeDecision\<close> is a sequence of \<open>if\<close> blocks that return or fall through.
  Each block is a definition that ends in the next one: the strafe-or-wait block (the
  last two statements), the movement block (priority 3), the jump block (priority 2),
  the attack block (priority 1) and the mistake roll in \<open>makeDecision\<close> itself.
\<close>

definition strafeOrIdle :: "engine \<Rightarrow> rng \<Rightarrow> action option \<times> engine \<times> rng" where
  "strafeOrIdle e r =
     (let (u, r1) = random r in
      if u < 0.3 then
        (let (v, r2) = random r1;
             strafeDirection = (if v < 0.5 then Left else Right)
         in (Some (Move strafeDirection), e, r2))
      else (Some getIdleActions, e, r1))"

definition movement :: "engine \<Rightarrow> real \<Rightarrow> bool \<Rightarrow> rng \<Rightarrow> action option \<times> engine \<times> rng" where
  "movement e distance isOpponentLeft r =
     (let idealDistance = comfortDistance (params e) in
      if distance > idealDistance + 50 then
        (Some (Move (if isOpponentLeft then Left else Right)), e, r)
      else
        (let (retreat, r1) =
               andRandomLess (distance < idealDistance - 50) (defensiveness (params e)) r
         in if retreat then (Some (Move (if isOpponentLeft then Right else Left)), e, r1)
            else strafeOrIdle e r1))"

definition jumpDecision :: "engine \<Rightarrow> real \<Rightarrow> bool \<Rightarrow> rng \<Rightarrow> action option \<times> engine \<times> rng" where
  "jumpDecision e distance isOpponentLeft r =
     (if jumpCooldown e = 0 then
        (let (away, r1) = andRandomLess (distance < 100) (defensiveness (params e)) r in
         if away then
           (Some (Jump (if isOpponentLeft then Right else Left)), e\<lparr>jumpCooldown := 120\<rparr>, r1)
         else
           (let (toward, r2) =
                  andRandomLess (distance > 250 \<and> distance < 400) (jumpChance (params e)) r1
            in if toward then
                 (Some (Jump (if isOpponentLeft then Left else Right)),
                  e\<lparr>jumpCooldown := 120\<rparr>, r2)
               else movement e distance isOpponentLeft r2))
      else movement e distance isOpponentLeft r)"

definition attackDecision :: "engine \<Rightarrow> real \<Rightarrow> bool \<Rightarrow> rng \<Rightarrow> action option \<times> engine \<times> rng" where
  "attackDecision e distance isOpponentLeft r =
     (if distance < attackRange (params e) \<and> attackCooldown e = 0 then
        (let (u, r1) = random r in
         if u < aggressiveness (params e) then
           (let e1 = (if difficulty e = ''easy''
                      then e\<lparr>strikeCount := strikeCount e + 1\<rparr> else e)
            in if difficulty e = ''easy'' \<and> strikeCount e1 mod 3 = 0 then
                 (Some getIdleActions,
                  e1\<lparr>attackCooldown := attackCooldownMin (params e)\<rparr>, r1)
               else
                 (let cooldownRange =
                        attackCooldownMax (params e) - attackCooldownMin (params e);
                      (v, r2) = random r1
                  in (Some Attack,
                      e1\<lparr>attackCooldown := attackCooldownMin (params e) + v * cooldownRange\<rparr>,
                      r2)))
         else jumpDecision e distance isOpponentLeft r1)
      else jumpDecision e distance isOpponentLeft r)"

text \<open>The fighters are parameters of \<open>makeDecision\<close> that its body never reads.\<close>

definition makeDecision ::
  "engine \<Rightarrow> fighter \<Rightarrow> fighter \<Rightarrow> real \<Rightarrow> bool \<Rightarrow> rng \<Rightarrow> action option \<times> engine \<times> rng" where
  "makeDecision e aiPlayer opponent distance isOpponentLeft r =
     (let (u, r1) = random r in
      if u < mistakes (params e) then
        (let (a, r2) = makeRandomAction r1 in (a, e, r2))
      else attackDecision e distance isOpponentLeft r1)"

subsection \<open>The frame update\<close>

text \<open>
  The first two statements of \<open>update\<close>, and \<open>update\<close>. The difference
  \<open>currentTime - lastDecisionTime\<close> of the reaction gate is exact here. The code's
  difference is the nearest double: it is not below \<open>reactionTime\<close> when the exact
  difference is not, but it can be equal to \<open>reactionTime\<close> when the exact difference
  is just below it and is not a double.
\<close>

definition decrementCooldowns :: "engine \<Rightarrow> engine" where
  "decrementCooldowns e =
     (let e1 = (if attackCooldown e > 0 then e\<lparr>attackCooldown := attackCooldown e - 1\<rparr> else e)
      in if jumpCooldown e1 > 0 then e1\<lparr>jumpCooldown := jumpCooldown e1 - 1\<rparr> else e1)"

definition update ::
  "engine \<Rightarrow> fighter \<Rightarrow> fighter \<Rightarrow> real \<Rightarrow> rng \<Rightarrow> action option \<times> engine \<times> rng" where
  "update e0 aiPlayer opponent currentTime r =
     (let e = decrementCooldowns e0 in
      if dead aiPlayer \<or> dead opponent then (Some getIdleActions, e, r)
      else if isAttacking aiPlayer then (continueCurrentAction e, e, r)
      else if currentTime - lastDecisionTime e < reactionTime e then
        (continueCurrentAction e, e, r)
      else
        (let e1 = e\<lparr>lastDecisionTime := currentTime\<rparr>;
             distance = getDistance aiPlayer opponent;
             isOpponentLeft = (position_x opponent < position_x aiPlayer);
             (action, e2, r') = makeDecision e1 aiPlayer opponent distance isOpponentLeft r
         in (action, e2\<lparr>currentAction := action\<rparr>, r')))"

text \<open>
  A frame is the input of one call of \<open>update\<close>: the two fighters and the clock.
  \<open>run\<close> is the game loop calling \<open>update\<close> once per frame; it returns the actions in
  order, the engine after the last call and the draws not yet read.
\<close>

type_synonym frame = "fighter \<times> fighter \<times> real"

fun run :: "engine \<Rightarrow> frame list \<Rightarrow> rng \<Rightarrow> action option list \<times> engine \<times> rng" where
  "run e [] r = ([], e, r)"
| "run e ((aiPlayer, opponent, currentTime) # fs) r =
     (case update e aiPlayer opponent currentTime r of
        (a, e', r') \<Rightarrow> (case run e' fs r' of (as, e'', r'') \<Rightarrow> (a # as, e'', r'')))"

definition actionOf :: "action option \<times> engine \<times> rng \<Rightarrow> action option" where
  "actionOf res = fst res"

definition engineOf :: "'a \<times> engine \<times> rng \<Rightarrow> engine" where
  "engineOf res = fst (snd res)"

definition rngOf :: "'a \<times> engine \<times> rng \<Rightarrow> rng" where
  "rngOf res = snd (snd res)"

text \<open>
  The engine states that a program can reach: it constructs a controller, then calls
  \<open>update\<close> and \<open>setDifficulty\<close> in any order, on any fighters, clock values and draws.
\<close>

inductive reachable :: "engine \<Rightarrow> bool" where
  reach_new: "reachable (AIController arg)"
| reach_update: "reachable e \<Longrightarrow> reachable (engineOf (update e aiPlayer opponent currentTime r))"
| reach_setDifficulty: "reachable e \<Longrightarrow> reachable (setDifficulty d e)"


subsection \<open>Scenarios\<close>

text \<open>A live fighter of width 40 at horizontal position \<open>x\<close>, not attacking.\<close>

definition fighterAt :: "real \<Rightarrow> fighter" where
  "fighterAt x = \<lparr>position_x = x, width = 40, dead = False, isAttacking = False\<rparr>"

definition clockOf :: "frame \<Rightarrow> real" where
  "clockOf f = snd (snd f)"

text \<open>
  Attack attempts with the cooldown ready: before each call of \<open>makeDecision\<close> the
  attack cooldown is put back to 0; each attempt reads its own source of draws. The
  result lists, per attempt, the action and the attack cooldown it leaves.
\<close>

fun attackAttempts ::
  "engine \<Rightarrow> fighter \<Rightarrow> fighter \<Rightarrow> real \<Rightarrow> bool \<Rightarrow> rng list \<Rightarrow> (action option \<times> real) list" where
  "attackAttempts e aiPlayer opponent distance isOpponentLeft [] = []"
| "attackAttempts e aiPlayer opponent distance isOpponentLeft (r # rs) =
     (let res = makeDecision (e\<lparr>attackCooldown := 0\<rparr>) aiPlayer opponent distance isOpponentLeft r
      in (actionOf res, attackCooldown (engineOf res)) #
         attackAttempts (engineOf res) aiPlayer opponent distance isOpponentLeft rs)"

subsection \<open>Sources that agree on a prefix\<close>

text \<open>
  Two sources agree on their first \<open>k\<close> draws; two results are the same action (or
  actions) and engine, with remaining sources that agree on their first \<open>k\<close> draws.
\<close>

definition agree :: "nat \<Rightarrow> rng \<Rightarrow> rng \<Rightarrow> bool" where
  "agree k r1 r2 = (\<forall>n<k. r1 n = r2 n)"

definition sameUpTo ::
  "nat \<Rightarrow> 'a \<times> engine \<times> rng \<Rightarrow> 'a \<times> engine \<times> rng \<Rightarrow> bool" where
  "sameUpTo k x y = (fst x = fst y \<and> engineOf x = engineOf y \<and> agree k (rngOf x) (rngOf y))"

section \<open>Basic facts\<close>

lemma decrementCooldowns_sel [simp]:
  "difficulty (decrementCooldowns e) = difficulty e"
  "reactionTime (decrementCooldowns e) = reactionTime e"
  "lastDecisionTime (decrementCooldowns e) = lastDecisionTime e"
  "currentAction (decrementCooldowns e) = currentAction e"
  "strikeCount (decrementCooldowns e) = strikeCount e"
  "params (decrementCooldowns e) = params e"
  "attackCooldown (decrementCooldowns e) =
     (if attackCooldown e > 0 then attackCooldown e - 1 else attackCooldown e)"
  "jumpCooldown (decrementCooldowns e) =
     (if jumpCooldown e > 0 then jumpCooldown e - 1 else jumpCooldown e)"
  by (simp_all add: decrementCooldowns_def Let_def)

lemma triple_sel [simp]:
  "actionOf (a, e, r) = a" "engineOf (x, e, r) = e" "rngOf (x, e, r) = r"
  by (simp_all add: actionOf_def engineOf_def rngOf_def)

lemma getDifficultyParams_easy:
  "getDifficultyParams ''easy'' =
     \<lparr>aggressiveness = 0.9, defensiveness = 0.6, attackRange = 190,
      comfortDistance = 320, jumpChance = 0.12, mistakes = 0.5,
      attackCooldownMin = 120, attackCooldownMax = 120\<rparr>"
  by (simp add: getDifficultyParams.simps)

lemma getDifficultyParams_medium:
  "getDifficultyParams ''medium'' =
     \<lparr>aggressiveness = 0.28, defensiveness = 0.35, attackRange = 195,
      comfortDistance = 200, jumpChance = 0.22, mistakes = 0.25,
      attackCooldownMin = 180, attackCooldownMax = 240\<rparr>"
  by (simp add: getDifficultyParams.simps)

lemma getDifficultyParams_hard:
  "getDifficultyParams ''hard'' =
     \<lparr>aggressiveness = 0.38, defensiveness = 0.45, attackRange = 220,
      comfortDistance = 170, jumpChance = 0.3, mistakes = 0.12,
      attackCooldownMin = 90, attackCooldownMax = 150\<rparr>"
  by (simp add: getDifficultyParams.simps)

lemma getDifficultyParams_default:
  "d \<noteq> ''easy'' \<Longrightarrow> d \<noteq> ''medium'' \<Longrightarrow> d \<noteq> ''hard'' \<Longrightarrow>
   getDifficultyParams d = getDifficultyParams ''medium''"
  by (subst getDifficultyParams.simps) simp

subsection \<open>Agreement of sources\<close>

lemma agree_mono: "agree k r1 r2 \<Longrightarrow> j \<le> k \<Longrightarrow> agree j r1 r2"
  by (simp add: agree_def)

lemma sameUpTo_mono: "sameUpTo k x y \<Longrightarrow> j \<le> k \<Longrightarrow> sameUpTo j x y"
  by (auto simp: sameUpTo_def intro: agree_mono)

lemma sameUpTo_triple [simp]:
  "sameUpTo k (a, e, r) (a', e', r') = (a = a' \<and> e = e' \<and> agree k r r')"
  by (simp add: sameUpTo_def engineOf_def rngOf_def)

lemma agree_random:
  assumes "agree (Suc k) r1 r2"
  obtains u s1 s2 where "random r1 = (u, s1)" "random r2 = (u, s2)" "agree k s1 s2"
  using assms by (auto simp: agree_def random_def)

lemma agree_andRandomLess:
  assumes "agree (Suc k) r1 r2"
  obtains b s1 s2 where "andRandomLess c p r1 = (b, s1)" "andRandomLess c p r2 = (b, s2)"
    "agree k s1 s2"
proof (cases c)
  case True
  from assms obtain u s1 s2 where "random r1 = (u, s1)" "random r2 = (u, s2)" "agree k s1 s2"
    by (rule agree_random)
  with True that show ?thesis by (simp add: andRandomLess_def)
next
  case False
  with assms that [of False r1 r2] show ?thesis
    by (simp add: andRandomLess_def agree_mono)
qed

lemma agree_makeRandomAction:
  assumes "agree (Suc k) r1 r2"
  shows "sameUpTo k (case makeRandomAction r1 of (a, s) \<Rightarrow> (a, e, s))
                    (case makeRandomAction r2 of (a, s) \<Rightarrow> (a, e, s))"
proof -
  from assms obtain u s1 s2 where "random r1 = (u, s1)" "random r2 = (u, s2)" "agree k s1 s2"
    by (rule agree_random)
  then show ?thesis by (simp add: makeRandomAction_def Let_def)
qed

lemma agree_strafeOrIdle:
  assumes "agree (2 + k) r1 r2"
  shows "sameUpTo k (strafeOrIdle e r1) (strafeOrIdle e r2)"
proof -
  from assms have "agree (Suc (Suc k)) r1 r2" by (rule agree_mono) simp
  then obtain u s1 s2 where 1: "random r1 = (u, s1)" "random r2 = (u, s2)"
    and s: "agree (Suc k) s1 s2" by (rule agree_random)
  from s obtain v t1 t2 where 2: "random s1 = (v, t1)" "random s2 = (v, t2)" "agree k t1 t2"
    by (rule agree_random)
  from s have "agree k s1 s2" by (rule agree_mono) simp
  with 1 2 show ?thesis by (simp add: strafeOrIdle_def Let_def)
qed

lemma agree_movement:
  assumes "agree (3 + k) r1 r2"
  shows "sameUpTo k (movement e d l r1) (movement e d l r2)"
proof -
  let ?c = "d < comfortDistance (params e) - 50" and ?p = "defensiveness (params e)"
  from assms have "agree (Suc (2 + k)) r1 r2" by (rule agree_mono) simp
  then obtain b s1 s2 where 1: "andRandomLess ?c ?p r1 = (b, s1)"
    "andRandomLess ?c ?p r2 = (b, s2)" and s: "agree (2 + k) s1 s2"
    by (rule agree_andRandomLess)
  have a: "agree k r1 r2" "agree k s1 s2"
    using assms s by (auto intro: agree_mono)
  from agree_strafeOrIdle [OF s] a 1 show ?thesis
    by (simp add: movement_def Let_def)
qed

lemma agree_jumpDecision:
  assumes "agree (5 + k) r1 r2"
  shows "sameUpTo k (jumpDecision e d l r1) (jumpDecision e d l r2)"
proof -
  let ?p = "defensiveness (params e)" and ?q = "jumpChance (params e)"
  from assms have "agree (Suc (4 + k)) r1 r2" by (rule agree_mono) simp
  then obtain b s1 s2 where 1: "andRandomLess (d < 100) ?p r1 = (b, s1)"
    "andRandomLess (d < 100) ?p r2 = (b, s2)" and s: "agree (4 + k) s1 s2"
    by (rule agree_andRandomLess)
  from s have "agree (Suc (3 + k)) s1 s2" by (rule agree_mono) simp
  then obtain c t1 t2 where 2: "andRandomLess (d > 250 \<and> d < 400) ?q s1 = (c, t1)"
    "andRandomLess (d > 250 \<and> d < 400) ?q s2 = (c, t2)" and t: "agree (3 + k) t1 t2"
    by (rule agree_andRandomLess)
  have a: "agree k s1 s2" "agree k t1 t2" "agree (3 + k) r1 r2"
    using assms s t by (auto intro: agree_mono)
  from agree_movement [OF t] agree_movement [OF a(3)] a 1 2 show ?thesis
    by (simp add: jumpDecision_def Let_def)
qed

lemma agree_attackDecision:
  assumes "agree (6 + k) r1 r2"
  shows "sameUpTo k (attackDecision e d l r1) (attackDecision e d l r2)"
proof -
  from assms have "agree (Suc (5 + k)) r1 r2" by (rule agree_mono) simp
  then obtain u s1 s2 where 1: "random r1 = (u, s1)" "random r2 = (u, s2)"
    and s: "agree (5 + k) s1 s2" by (rule agree_random)
  from s have "agree (Suc k) s1 s2" by (rule agree_mono) simp
  then obtain v t1 t2 where 2: "random s1 = (v, t1)" "random s2 = (v, t2)" "agree k t1 t2"
    by (rule agree_random)
  have a: "agree k s1 s2" "agree (5 + k) r1 r2"
    using assms s by (auto intro: agree_mono)
  from agree_jumpDecision [OF s] agree_jumpDecision [OF a(2)] a 1 2 show ?thesis
    by (simp add: attackDecision_def Let_def)
qed

lemma agree_makeDecision:
  assumes "agree (7 + k) r1 r2"
  shows "sameUpTo k (makeDecision e a o' d l r1) (makeDecision e a o' d l r2)"
proof -
  from assms have "agree (Suc (6 + k)) r1 r2" by (rule agree_mono) simp
  then obtain u s1 s2 where 1: "random r1 = (u, s1)" "random r2 = (u, s2)"
    and s: "agree (6 + k) s1 s2" by (rule agree_random)
  from s have "agree (Suc k) s1 s2" by (rule agree_mono) simp
  from agree_makeRandomAction [OF this, of e] agree_attackDecision [OF s] 1 show ?thesis
    by (simp add: makeDecision_def Let_def)
qed

lemma agree_update:
  assumes "agree (7 + k) r1 r2"
  shows "sameUpTo k (update e a o' t r1) (update e a o' t r2)"
proof -
  let ?e1 = "(decrementCooldowns e)\<lparr>lastDecisionTime := t\<rparr>"
  let ?d = "getDistance a o'" and ?l = "position_x o' < position_x a"
  from assms have r: "agree k r1 r2" by (rule agree_mono) simp
  from agree_makeDecision [OF assms, of ?e1 a o' ?d ?l]
  obtain x e' s1 s2 where m: "makeDecision ?e1 a o' ?d ?l r1 = (x, e', s1)"
    "makeDecision ?e1 a o' ?d ?l r2 = (x, e', s2)" and "agree k s1 s2"
    by (cases "makeDecision ?e1 a o' ?d ?l r1"; cases "makeDecision ?e1 a o' ?d ?l r2") simp
  with r show ?thesis
    by (simp add: update_def Let_def)
qed

lemma agree_run:
  "agree (7 * length fs + k) r1 r2 \<Longrightarrow> sameUpTo k (run e fs r1) (run e fs r2)"
proof (induction fs arbitrary: e r1 r2)
  case Nil
  then show ?case by simp
next
  case (Cons f fs)
  obtain a o' t where f: "f = (a, o', t)" by (cases f)
  from Cons.prems have "agree (7 + (7 * length fs + k)) r1 r2" by (rule agree_mono) simp
  from agree_update [OF this, of e a o' t]
  obtain x e' s1 s2 where u: "update e a o' t r1 = (x, e', s1)" "update e a o' t r2 = (x, e', s2)"
    and s: "agree (7 * length fs + k) s1 s2"
    by (cases "update e a o' t r1"; cases "update e a o' t r2") simp
  from Cons.IH [OF s, of e'] show ?case
    by (auto simp: f u sameUpTo_def engineOf_def rngOf_def split: prod.splits)
qed


subsection \<open>Unfolding a draw and a run\<close>

lemma random_eq [simp]: "random r = (r 0, \<lambda>n. r (Suc n))"
  by (simp add: random_def)

lemma run_Cons:
  "run e ((a, o', t) # fs) r =
     (fst (update e a o' t r) #
        fst (run (engineOf (update e a o' t r)) fs (rngOf (update e a o' t r))),
      engineOf (run (engineOf (update e a o' t r)) fs (rngOf (update e a o' t r))),
      rngOf (run (engineOf (update e a o' t r)) fs (rngOf (update e a o' t r))))"
  by (simp add: engineOf_def rngOf_def split: prod.splits)

lemma unitDraws_scripted:
  "\<forall>d\<in>set ds. 0 \<le> d \<and> d < 1 \<Longrightarrow> unitDraws (scripted ds)"
  by (simp add: unitDraws_def scripted_def)

lemma exactDouble_intro:
  "\<bar>m\<bar> < 2 ^ 53 \<Longrightarrow> b \<le> 1074 \<Longrightarrow> exactDouble (real_of_int m / 2 ^ b)"
  unfolding exactDouble_def by (intro exI [of _ m] exI [of _ 0] exI [of _ b]) simp

subsection \<open>What each block of the decision writes\<close>

lemma strafeOrIdle_engine [simp]: "engineOf (strafeOrIdle e r) = e"
  by (simp add: strafeOrIdle_def Let_def)

lemma movement_engine [simp]: "engineOf (movement e d l r) = e"
  by (simp add: movement_def andRandomLess_def Let_def)

lemma strafeOrIdle_defined [simp]: "\<exists>y. actionOf (strafeOrIdle e r) = Some y"
  by (simp add: strafeOrIdle_def Let_def)

lemma movement_defined [simp]: "\<exists>y. actionOf (movement e d l r) = Some y"
  by (simp add: movement_def andRandomLess_def Let_def)

lemma jumpDecision_defined [simp]: "\<exists>y. actionOf (jumpDecision e d l r) = Some y"
  by (simp add: jumpDecision_def andRandomLess_def Let_def)

lemma attackDecision_defined [simp]: "\<exists>y. actionOf (attackDecision e d l r) = Some y"
  by (simp add: attackDecision_def Let_def)

lemma makeRandomAction_defined:
  assumes "0 \<le> r 0" "r 0 < 1"
  shows "\<exists>y. fst (makeRandomAction r) = Some y"
proof -
  from assms have "0 \<le> \<lfloor>r 0 * 6\<rfloor>" "\<lfloor>r 0 * 6\<rfloor> < 6" by (simp_all add: floor_less_iff)
  then show ?thesis by (simp add: makeRandomAction_def actions_def Let_def)
qed

lemma makeDecision_defined:
  assumes "unitDraws r"
  shows "\<exists>y. actionOf (makeDecision e a o' d l r) = Some y"
proof -
  from assms have "0 \<le> r (Suc 0)" "r (Suc 0) < 1" by (simp_all add: unitDraws_def)
  then have "\<exists>y. fst (makeRandomAction (\<lambda>n. r (Suc n))) = Some y"
    by (intro makeRandomAction_defined) 
  then show ?thesis
    by (cases "makeRandomAction (\<lambda>n. r (Suc n))") (simp add: makeDecision_def Let_def)
qed

text \<open>What a decision leaves alone.\<close>

lemma jumpDecision_sel [simp]:
  "difficulty (engineOf (jumpDecision e d l r)) = difficulty e"
  "reactionTime (engineOf (jumpDecision e d l r)) = reactionTime e"
  "lastDecisionTime (engineOf (jumpDecision e d l r)) = lastDecisionTime e"
  "currentAction (engineOf (jumpDecision e d l r)) = currentAction e"
  "params (engineOf (jumpDecision e d l r)) = params e"
  "attackCooldown (engineOf (jumpDecision e d l r)) = attackCooldown e"
  "strikeCount (engineOf (jumpDecision e d l r)) = strikeCount e"
  by (simp_all add: jumpDecision_def andRandomLess_def Let_def)

lemma jumpDecision_jumpCooldown:
  "jumpCooldown (engineOf (jumpDecision e d l r)) = jumpCooldown e \<or>
   jumpCooldown e = 0 \<and> jumpCooldown (engineOf (jumpDecision e d l r)) = 120"
  by (simp add: jumpDecision_def andRandomLess_def Let_def)

lemma attackDecision_sel [simp]:
  "difficulty (engineOf (attackDecision e d l r)) = difficulty e"
  "reactionTime (engineOf (attackDecision e d l r)) = reactionTime e"
  "lastDecisionTime (engineOf (attackDecision e d l r)) = lastDecisionTime e"
  "currentAction (engineOf (attackDecision e d l r)) = currentAction e"
  "params (engineOf (attackDecision e d l r)) = params e"
  by (simp_all add: attackDecision_def Let_def)

lemma attackDecision_jumpCooldown:
  "jumpCooldown (engineOf (attackDecision e d l r)) = jumpCooldown e \<or>
   jumpCooldown e = 0 \<and> jumpCooldown (engineOf (attackDecision e d l r)) = 120"
  using jumpDecision_jumpCooldown [of e d l r] jumpDecision_jumpCooldown [of e d l "\<lambda>n. r (Suc n)"]
  by (simp add: attackDecision_def Let_def)

lemma attackDecision_attackCooldown:
  "attackCooldown e \<noteq> 0 \<Longrightarrow> attackCooldown (engineOf (attackDecision e d l r)) = attackCooldown e"
  by (simp add: attackDecision_def Let_def)

lemma makeDecision_sel [simp]:
  "difficulty (engineOf (makeDecision e a o' d l r)) = difficulty e"
  "reactionTime (engineOf (makeDecision e a o' d l r)) = reactionTime e"
  "lastDecisionTime (engineOf (makeDecision e a o' d l r)) = lastDecisionTime e"
  "currentAction (engineOf (makeDecision e a o' d l r)) = currentAction e"
  "params (engineOf (makeDecision e a o' d l r)) = params e"
  by (simp_all add: makeDecision_def Let_def split: prod.splits)

lemma makeDecision_jumpCooldown:
  "jumpCooldown (engineOf (makeDecision e a o' d l r)) = jumpCooldown e \<or>
   jumpCooldown e = 0 \<and> jumpCooldown (engineOf (makeDecision e a o' d l r)) = 120"
  using attackDecision_jumpCooldown [of e d l "\<lambda>n. r (Suc n)"]
  by (simp add: makeDecision_def Let_def split: prod.splits)

lemma makeDecision_attackCooldown:
  "attackCooldown e \<noteq> 0 \<Longrightarrow>
   attackCooldown (engineOf (makeDecision e a o' d l r)) = attackCooldown e"
  by (simp add: makeDecision_def Let_def attackDecision_attackCooldown split: prod.splits)

text \<open>The engine after a call, in the two ways a call can go.\<close>

lemma update_cases:
  "update e a o' t r =
     (if dead a \<or> dead o' then (Some Idle, decrementCooldowns e, r)
      else if isAttacking a \<or> t - lastDecisionTime e < reactionTime e
      then (continueCurrentAction e, decrementCooldowns e, r)
      else (actionOf (makeDecision ((decrementCooldowns e)\<lparr>lastDecisionTime := t\<rparr>) a o'
                (getDistance a o') (position_x o' < position_x a) r),
            (engineOf (makeDecision ((decrementCooldowns e)\<lparr>lastDecisionTime := t\<rparr>) a o'
                (getDistance a o') (position_x o' < position_x a) r))
              \<lparr>currentAction := actionOf (makeDecision ((decrementCooldowns e)\<lparr>lastDecisionTime := t\<rparr>) a o'
                (getDistance a o') (position_x o' < position_x a) r)\<rparr>,
            rngOf (makeDecision ((decrementCooldowns e)\<lparr>lastDecisionTime := t\<rparr>) a o'
                (getDistance a o') (position_x o' < position_x a) r)))"
  by (simp add: update_def Let_def getIdleActions_def continueCurrentAction_def
      actionOf_def engineOf_def rngOf_def split: prod.splits)

lemma update_sel [simp]:
  "difficulty (engineOf (update e a o' t r)) = difficulty e"
  "reactionTime (engineOf (update e a o' t r)) = reactionTime e"
  "params (engineOf (update e a o' t r)) = params e"
  by (simp_all add: update_cases)

lemma update_jumpCooldown:
  "jumpCooldown (engineOf (update e a o' t r)) = jumpCooldown (decrementCooldowns e) \<or>
   jumpCooldown (decrementCooldowns e) = 0 \<and> jumpCooldown (engineOf (update e a o' t r)) = 120"
  using makeDecision_jumpCooldown [of "(decrementCooldowns e)\<lparr>lastDecisionTime := t\<rparr>" a o'
      "getDistance a o'" "position_x o' < position_x a" r]
  by (auto simp: update_cases split: if_splits)

lemma update_attackCooldown:
  "attackCooldown (decrementCooldowns e) \<noteq> 0 \<Longrightarrow>
   attackCooldown (engineOf (update e a o' t r)) = attackCooldown (decrementCooldowns e)"
  using makeDecision_attackCooldown [of "(decrementCooldowns e)\<lparr>lastDecisionTime := t\<rparr>" a o'
      "getDistance a o'" "position_x o' < position_x a" r]
  by (auto simp: update_cases split: if_splits)


subsection \<open>Calls inside the reaction window\<close>

lemma update_before_first_decision:
  assumes "lastDecisionTime e = 0" "currentAction e = None" "t < reactionTime e"
  shows "update e a o' t r = (Some Idle, decrementCooldowns e, r)"
  using assms
  by (simp add: update_def continueCurrentAction_def getIdleActions_def Let_def)

lemma update_lastDecisionTime:
  "lastDecisionTime (engineOf (update e a o' t r)) =
     (if dead a \<or> dead o' \<or> isAttacking a \<or> t - lastDecisionTime e < reactionTime e
      then lastDecisionTime e else t)"
  by (simp add: update_cases)

lemma update_continues:
  assumes "\<not> dead a" "\<not> dead o'" "isAttacking a \<or> t - lastDecisionTime e < reactionTime e"
  shows "actionOf (update e a o' t r) = continueCurrentAction e"
  using assms by (auto simp: update_cases)

lemma update_stores_action:
  assumes "unitDraws r" "\<not> dead a" "\<not> dead o'"
  shows "continueCurrentAction (engineOf (update e a o' t r)) = actionOf (update e a o' t r)"
proof (cases "isAttacking a \<or> t - lastDecisionTime e < reactionTime e")
  case True
  with assms show ?thesis
    by (auto simp: update_cases continueCurrentAction_def getIdleActions_def split: option.splits)
next
  case False
  let ?m = "makeDecision ((decrementCooldowns e)\<lparr>lastDecisionTime := t\<rparr>) a o'
     (getDistance a o') (position_x o' < position_x a) r"
  from assms(1) obtain y where "actionOf ?m = Some y"
    using makeDecision_defined by blast
  with False assms show ?thesis
    by (simp add: update_cases continueCurrentAction_def)
qed

subsection \<open>The cooldowns over a run\<close>

lemma setDifficulty_cooldowns [simp]:
  "jumpCooldown (setDifficulty d e) = jumpCooldown e"
  "attackCooldown (setDifficulty d e) = attackCooldown e"
  by (simp_all add: setDifficulty_def)

lemma reachable_run: "reachable e \<Longrightarrow> reachable (engineOf (run e fs r))"
proof (induction fs arbitrary: e r)
  case Nil
  then show ?case by simp
next
  case (Cons f fs)
  obtain a o' t where f: "f = (a, o', t)" by (cases f)
  from Cons.prems have "reachable (engineOf (update e a o' t r))" by (rule reach_update)
  then have "reachable (engineOf (run (engineOf (update e a o' t r)) fs (rngOf (update e a o' t r))))"
    by (rule Cons.IH)
  then show ?case by (simp add: f run_Cons del: run.simps)
qed

lemma reachable_jumpCooldown: "reachable e \<Longrightarrow> \<exists>n\<le>120. jumpCooldown e = real n"
proof (induction rule: reachable.induct)
  case (reach_new arg)
  show ?case by (simp add: AIController_def Let_def)
next
  case (reach_update e aiPlayer opponent currentTime r)
  then obtain n where n: "n \<le> 120" "jumpCooldown e = real n" by blast
  then have d: "jumpCooldown (decrementCooldowns e) = real (n - 1)"
    by (cases n) simp_all
  from update_jumpCooldown [of e aiPlayer opponent currentTime r] show ?case
  proof
    assume "jumpCooldown (engineOf (update e aiPlayer opponent currentTime r)) =
      jumpCooldown (decrementCooldowns e)"
    with d n(1) show ?thesis by (intro exI [of _ "n - 1"]) simp
  next
    assume "jumpCooldown (decrementCooldowns e) = 0 \<and>
      jumpCooldown (engineOf (update e aiPlayer opponent currentTime r)) = 120"
    then show ?thesis by (intro exI [of _ 120]) simp
  qed
next
  case (reach_setDifficulty e d)
  then show ?case by simp
qed

lemma jumpCooldown_countdown:
  "jumpCooldown e = real n \<Longrightarrow> length fs < n \<Longrightarrow>
   jumpCooldown (engineOf (run e fs r)) = real n - real (length fs)"
proof (induction fs arbitrary: e n r)
  case Nil
  then show ?case by simp
next
  case (Cons f fs)
  obtain a o' t where f: "f = (a, o', t)" by (cases f)
  from Cons.prems have n: "2 \<le> n" by simp
  with Cons.prems(1) have d: "jumpCooldown (decrementCooldowns e) = real (n - 1)"
    by (simp add: of_nat_diff)
  with n update_jumpCooldown [of e a o' t r]
  have u: "jumpCooldown (engineOf (update e a o' t r)) = real (n - 1)" by auto
  from Cons.prems(2) have "length fs < n - 1" by simp
  from Cons.IH [OF u this, of "rngOf (update e a o' t r)"] n show ?case
    by (simp add: f run_Cons of_nat_diff del: run.simps)
qed

lemma attackCooldown_countdown:
  "attackCooldown e = c \<Longrightarrow> frac c \<noteq> 0 \<Longrightarrow> real (length fs) < c + 1 \<Longrightarrow>
   attackCooldown (engineOf (run e fs r)) = c - real (length fs)"
proof (induction fs arbitrary: e c r)
  case Nil
  then show ?case by simp
next
  case (Cons f fs)
  obtain a o' t where f: "f = (a, o', t)" by (cases f)
  from Cons.prems(3) have pos: "0 < c" by simp
  have fr: "frac (c - 1) \<noteq> 0" using Cons.prems(2) by (simp add: frac_def)
  then have "c - 1 \<noteq> 0" by auto
  with pos Cons.prems(1) have "attackCooldown (decrementCooldowns e) \<noteq> 0"
    and d: "attackCooldown (decrementCooldowns e) = c - 1" by simp_all
  from update_attackCooldown [OF this(1), of a o' t r] d
  have u: "attackCooldown (engineOf (update e a o' t r)) = c - 1" by simp
  from Cons.prems(3) have "real (length fs) < c - 1 + 1" by simp
  from Cons.IH [OF u fr this, of "rngOf (update e a o' t r)"] show ?case
    by (simp add: f run_Cons del: run.simps)
qed

lemma attackCooldown_stays_negative:
  "attackCooldown e < 0 \<Longrightarrow> attackCooldown (engineOf (run e fs r)) = attackCooldown e"
proof (induction fs arbitrary: e r)
  case Nil
  then show ?case by simp
next
  case (Cons f fs)
  obtain a o' t where f: "f = (a, o', t)" by (cases f)
  from Cons.prems have "attackCooldown (decrementCooldowns e) \<noteq> 0" by simp
  from update_attackCooldown [OF this, of a o' t r] Cons.prems
  have u: "attackCooldown (engineOf (update e a o' t r)) = attackCooldown e" by simp
  with Cons.prems have "attackCooldown (engineOf (update e a o' t r)) < 0" by simp
  from Cons.IH [OF this, of "rngOf (update e a o' t r)"] u show ?case
    by (simp add: f run_Cons del: run.simps)
qed

lemma first_attack:
  "update (AIController None) (fighterAt 0) (fighterAt 150) 400 (scripted [1/2, 1/8, 1/8]) =
   (Some Attack, (AIController None)\<lparr>lastDecisionTime := 400, currentAction := Some Attack, attackCooldown := 375/2\<rparr>, 
    \<lambda>n. scripted [1/2, 1/8, 1/8] (Suc (Suc (Suc n))))"
  by (simp add: update_def makeDecision_def attackDecision_def getDistance_def Let_def
        getDifficultyParams_medium AIController_def fighterAt_def scripted_def getReactionTime_def
        decrementCooldowns_def)

subsection \<open>Attack attempts at the easy tier\<close>

lemma easy_attempt:
  assumes "difficulty e = ''easy''"
    "params e = (getDifficultyParams ''easy'')\<lparr>mistakes := m\<rparr>"
    "attackCooldown e = 0" "d < 190" "\<not> r 0 < m" "r (Suc 0) < 0.9"
  shows "makeDecision e a o' d l r =
    (if Suc (strikeCount e) mod 3 = 0
     then (Some Idle, e\<lparr>strikeCount := Suc (strikeCount e), attackCooldown := 120\<rparr>,
           \<lambda>n. r (Suc (Suc n)))
     else (Some Attack, e\<lparr>strikeCount := Suc (strikeCount e), attackCooldown := 120\<rparr>,
           \<lambda>n. r (Suc (Suc (Suc n)))))"
  using assms
  by (simp add: makeDecision_def attackDecision_def getIdleActions_def Let_def
      getDifficultyParams_easy)

lemma attackAttempts_easy:
  assumes "difficulty e = ''easy''"
    "params e = (getDifficultyParams ''easy'')\<lparr>mistakes := m\<rparr>"
    "d < 190" "\<not> r 0 < m" "r (Suc 0) < 0.9"
  shows "attackAttempts e a o' d l (r # rs) =
    ((if Suc (strikeCount e) mod 3 = 0 then Some Idle else Some Attack), 120) #
    attackAttempts (e\<lparr>strikeCount := Suc (strikeCount e), attackCooldown := 120\<rparr>) a o' d l rs"
  using easy_attempt [of "e\<lparr>attackCooldown := 0\<rparr>" m d r a o' l] assms
  by (simp add: Let_def)

subsection \<open>Two concrete calls\<close>

lemma gated_call:
  "update (AIController None) (fighterAt 0) (fighterAt 150) 399 (scripted [1/2, 1/8, 1/8]) =
   (Some Idle, AIController None, scripted [1/2, 1/8, 1/8])"
  by (simp add: update_def continueCurrentAction_def getIdleActions_def Let_def
      AIController_def fighterAt_def getReactionTime_def decrementCooldowns_def)

lemma first_jump:
  "update (AIController None) (fighterAt 0) (fighterAt 50) 400 (scripted [1/2, 1/2, 1/8]) =
   (Some (Jump Left),
    (AIController None)\<lparr>lastDecisionTime := 400, currentAction := Some (Jump Left),
       jumpCooldown := 120\<rparr>,
    \<lambda>n. scripted [1/2, 1/2, 1/8] (Suc (Suc (Suc n))))"
  by (simp add: update_def makeDecision_def attackDecision_def jumpDecision_def
      andRandomLess_def getDistance_def Let_def getDifficultyParams_medium AIController_def
      fighterAt_def scripted_def getReactionTime_def decrementCooldowns_def)

section \<open>Cooldown counters\<close>

text \<open>
  Claim C1. In every reachable engine state the cooldown counters \<open>attackCooldown\<close> and
  \<open>jumpCooldown\<close> are never negative, and each decreases by exactly 1 per call of
  \<open>update\<close> while it is positive, also after an attack has set \<open>attackCooldown\<close> to
  \<open>attackCooldownMin + u * (attackCooldownMax - attackCooldownMin)\<close> for a draw \<open>u\<close>.

  The code does not keep this. A medium controller that attacks on the draws 1/2, 1/8
  and 1/8 sets \<open>attackCooldown\<close> to 180 + 60/8 = 187.5; all these numbers and the
  subtractions that follow are exact in IEEE doubles. The guard \<open>attackCooldown > 0\<close>
  still holds at 0.5, so the 188th later call takes the counter to -0.5. The theorem
  evaluates the code there. By \<open>attackCooldown_stays_negative\<close> the counter then keeps
  that value for ever, so that the test \<open>attackCooldown === 0\<close> of the attack block
  never holds again.
\<close>

theorem attackCooldown_goes_negative:
  "attackCooldown (engineOf (run (AIController None)
      ((fighterAt 0, fighterAt 150, 400) # replicate 188 (fighterAt 0, fighterAt 150, 400))
      (scripted [1/2, 1/8, 1/8]))) = - 1/2"
proof -
  let ?e = "(AIController None)\<lparr>lastDecisionTime := 400, currentAction := Some Attack,
    attackCooldown := 375/2\<rparr>"
  have "frac (375/2 :: real) \<noteq> 0" by (simp add: frac_def)
  from attackCooldown_countdown [of ?e "375/2" "replicate 188 (fighterAt 0, fighterAt 150, 400)",
      OF _ this]
  show ?thesis
    by (simp add: run_Cons first_attack del: run.simps)
qed

section \<open>Reaction gating\<close>

text \<open>
  Claim C2, as stated: for two consecutive calls of \<open>update\<close> at \<open>now1\<close> and \<open>now2\<close> with
  \<open>now2 - now1 < reactionTime\<close> and neither fighter dead on either call, the second call
  returns the action of the first. This fails: the window is measured from the last
  decision, not from the last call. A new medium controller called at 399 is inside the
  window and returns the idle action; called again at 400 it decides, and attacks.
\<close>

theorem reaction_gating_counterexample:
  "\<not> dead (fighterAt 0) \<and> \<not> dead (fighterAt 150) \<and>
   400 - 399 < reactionTime (AIController None) \<and>
   actionOf (update (AIController None) (fighterAt 0) (fighterAt 150) 399
      (scripted [1/2, 1/8, 1/8])) = Some Idle \<and>
   actionOf (update
      (engineOf (update (AIController None) (fighterAt 0) (fighterAt 150) 399
         (scripted [1/2, 1/8, 1/8])))
      (fighterAt 0) (fighterAt 150) 400
      (rngOf (update (AIController None) (fighterAt 0) (fighterAt 150) 399
         (scripted [1/2, 1/8, 1/8])))) = Some Attack"
  by (simp add: gated_call first_attack) (simp add: fighterAt_def AIController_def getReactionTime_def Let_def)


text \<open>
  Claim C2, amended: for two consecutive calls of \<open>update\<close> with neither fighter dead on
  either call and draws in \<open>[0, 1)\<close>, if \<open>now2 - lastDecisionTime < reactionTime\<close> for
  the \<open>lastDecisionTime\<close> that the first call leaves, then the second call returns the
  action of the first. The first call leaves \<open>lastDecisionTime = now1\<close> when it computes
  a decision, and the earlier value otherwise. The two differences that the reaction
  gate takes, \<open>now1 - lastDecisionTime\<close> at the first call and \<open>now2 - lastDecisionTime\<close>
  at the second, are doubles (as they are when the clock counts whole milliseconds, or
  when the later time is at most twice the earlier), so that the subtraction of the code
  does not round and its gate is the one stated here.
\<close>

theorem reaction_gating:
  assumes "\<not> dead a1" "\<not> dead o1" "\<not> dead a2" "\<not> dead o2" "unitDraws r"
    and "exactDouble (now1 - lastDecisionTime e)"
    and "exactDouble (now2 - lastDecisionTime (engineOf (update e a1 o1 now1 r)))"
    and "now2 - lastDecisionTime (engineOf (update e a1 o1 now1 r)) < reactionTime e"
  shows "actionOf (update (engineOf (update e a1 o1 now1 r)) a2 o2 now2 (rngOf (update e a1 o1 now1 r))) =
      actionOf (update e a1 o1 now1 r) \<and>
    lastDecisionTime (engineOf (update e a1 o1 now1 r)) =
      (if isAttacking a1 \<or> now1 - lastDecisionTime e < reactionTime e
       then lastDecisionTime e else now1)"
proof
  let ?e1 = "engineOf (update e a1 o1 now1 r)"
  from assms(8) have "isAttacking a2 \<or> now2 - lastDecisionTime ?e1 < reactionTime ?e1" by simp
  with assms(3,4)
  have "actionOf (update ?e1 a2 o2 now2 (rngOf (update e a1 o1 now1 r))) = continueCurrentAction ?e1"
    by (rule update_continues)
  also from assms(5,1,2) have "\<dots> = actionOf (update e a1 o1 now1 r)"
    by (rule update_stores_action)
  finally show "actionOf (update ?e1 a2 o2 now2 (rngOf (update e a1 o1 now1 r))) =
      actionOf (update e a1 o1 now1 r)" .
next
  from assms(1,2) show "lastDecisionTime (engineOf (update e a1 o1 now1 r)) =
      (if isAttacking a1 \<or> now1 - lastDecisionTime e < reactionTime e
       then lastDecisionTime e else now1)"
    by (simp add: update_lastDecisionTime)
qed

theorem reaction_gating_witness:
  "\<not> dead (fighterAt 0) \<and> \<not> dead (fighterAt 150) \<and> unitDraws (scripted [1/2, 1/8, 1/8]) \<and>
   exactDouble (400 - lastDecisionTime (AIController None)) \<and>
   exactDouble (500 - lastDecisionTime (engineOf (update (AIController None) (fighterAt 0)
      (fighterAt 150) 400 (scripted [1/2, 1/8, 1/8])))) \<and>
   500 - lastDecisionTime (engineOf (update (AIController None) (fighterAt 0) (fighterAt 150) 400
      (scripted [1/2, 1/8, 1/8]))) < reactionTime (AIController None) \<and>
   actionOf (update
      (engineOf (update (AIController None) (fighterAt 0) (fighterAt 150) 400
         (scripted [1/2, 1/8, 1/8])))
      (fighterAt 0) (fighterAt 150) 500
      (rngOf (update (AIController None) (fighterAt 0) (fighterAt 150) 400
         (scripted [1/2, 1/8, 1/8])))) = Some Attack"
proof -
  let ?u = "update (AIController None) (fighterAt 0) (fighterAt 150) 400 (scripted [1/2, 1/8, 1/8])"
  have d: "\<not> dead (fighterAt 0)" "\<not> dead (fighterAt 150)"
    by (simp_all add: fighterAt_def)
  have r: "unitDraws (scripted [1/2, 1/8, 1/8])"
    by (rule unitDraws_scripted) simp
  have x1: "exactDouble (400 - lastDecisionTime (AIController None))"
    using exactDouble_intro [of 400 0] by (simp add: AIController_def Let_def)
  have x2: "exactDouble (500 - lastDecisionTime (engineOf ?u))"
    using exactDouble_intro [of 100 0] by (simp add: first_attack)
  have g: "500 - lastDecisionTime (engineOf ?u) < reactionTime (AIController None)"
    by (simp add: first_attack) (simp add: AIController_def Let_def getReactionTime_def)
  from reaction_gating [OF d d r x1 x2 g]
  have "actionOf (update (engineOf ?u) (fighterAt 0) (fighterAt 150) 500 (rngOf ?u)) =
      actionOf ?u" by simp
  then have "actionOf (update (engineOf ?u) (fighterAt 0) (fighterAt 150) 500 (rngOf ?u)) =
      Some Attack" by (simp add: first_attack)
  with d r x1 x2 g show ?thesis by simp
qed

section \<open>The scripted miss of the easy tier\<close>

text \<open>
  Claim C3. At the easy tier, from \<open>strikeCount = 0\<close>, with the fighters within attack
  range, the attack cooldown at 0 at each attempt, every mistake roll failing and every
  aggressiveness roll succeeding, nine consecutive attempts give the idle action at the
  3rd, 6th and 9th attempt and an attack at the six others, and every attempt, the
  misses too, leaves the attack cooldown at \<open>attackCooldownMin = 120\<close>. The mistake
  probability is a parameter \<open>m\<close>: forcing it to 0 is the case \<open>m = 0\<close>.
\<close>

theorem easy_scripted_miss:
  assumes "difficulty e = ''easy''"
    "params e = (getDifficultyParams ''easy'')\<lparr>mistakes := m\<rparr>"
    "strikeCount e = 0"
    "d < attackRange (params e)"
    "\<forall>r\<in>set [r1, r2, r3, r4, r5, r6, r7, r8, r9].
        \<not> r 0 < mistakes (params e) \<and> r 1 < aggressiveness (params e)"
  shows "attackAttempts e a o' d l [r1, r2, r3, r4, r5, r6, r7, r8, r9] =
    [(Some Attack, 120), (Some Attack, 120), (Some Idle, 120),
     (Some Attack, 120), (Some Attack, 120), (Some Idle, 120),
     (Some Attack, 120), (Some Attack, 120), (Some Idle, 120)]"
proof -
  from assms(2,4) have d: "d < 190" by (simp add: getDifficultyParams_easy)
  from assms(2,5) have r: "\<not> r1 0 < m" "r1 (Suc 0) < 0.9" "\<not> r2 0 < m" "r2 (Suc 0) < 0.9"
    "\<not> r3 0 < m" "r3 (Suc 0) < 0.9" "\<not> r4 0 < m" "r4 (Suc 0) < 0.9"
    "\<not> r5 0 < m" "r5 (Suc 0) < 0.9" "\<not> r6 0 < m" "r6 (Suc 0) < 0.9"
    "\<not> r7 0 < m" "r7 (Suc 0) < 0.9" "\<not> r8 0 < m" "r8 (Suc 0) < 0.9"
    "\<not> r9 0 < m" "r9 (Suc 0) < 0.9"
    by (simp_all add: getDifficultyParams_easy)
  show ?thesis
    using assms(1-3) d r by (simp add: attackAttempts_easy del: attackAttempts.simps(2))
qed


theorem easy_scripted_miss_witness:
  "attackAttempts
     ((AIController (Some ''easy''))\<lparr>params := (getDifficultyParams ''easy'')\<lparr>mistakes := 0\<rparr>\<rparr>)
     (fighterAt 0) (fighterAt 150) 150 False
     [scripted [1/2, 1/2], scripted [0, 1/4], scripted [1/2, 1/2],
      scripted [1/2, 1/2], scripted [0, 1/4], scripted [1/2, 1/2],
      scripted [1/2, 1/2], scripted [0, 1/4], scripted [1/2, 1/2]] =
   [(Some Attack, 120), (Some Attack, 120), (Some Idle, 120),
    (Some Attack, 120), (Some Attack, 120), (Some Idle, 120),
    (Some Attack, 120), (Some Attack, 120), (Some Idle, 120)]"
  using easy_scripted_miss [of
      "(AIController (Some ''easy''))\<lparr>params := (getDifficultyParams ''easy'')\<lparr>mistakes := 0\<rparr>\<rparr>"
      0 150
      "scripted [1/2, 1/2]" "scripted [0, 1/4]" "scripted [1/2, 1/2]"
      "scripted [1/2, 1/2]" "scripted [0, 1/4]" "scripted [1/2, 1/2]"
      "scripted [1/2, 1/2]" "scripted [0, 1/4]" "scripted [1/2, 1/2]"
      "fighterAt 0" "fighterAt 150" False]
  by (simp add: AIController_def Let_def getDifficultyParams_easy scripted_def)

section \<open>Death short-circuit\<close>

text \<open>
  Claim C4. When the controlled fighter or the opponent is dead, \<open>update\<close> returns the
  idle action whatever the cooldowns and the decision timer are, reads no draw, and
  leaves \<open>lastDecisionTime\<close> and \<open>currentAction\<close> as they were: the engine after the call
  is the engine before it with the two cooldowns decremented (each by 1 when positive),
  and nothing else changed.
\<close>

theorem death_short_circuit:
  "dead aiPlayer \<or> dead opponent \<Longrightarrow>
   update e aiPlayer opponent currentTime r = (Some Idle, decrementCooldowns e, r) \<and>
   lastDecisionTime (decrementCooldowns e) = lastDecisionTime e \<and>
   currentAction (decrementCooldowns e) = currentAction e \<and>
   decrementCooldowns e =
     e\<lparr>attackCooldown := (if attackCooldown e > 0 then attackCooldown e - 1 else attackCooldown e),
       jumpCooldown := (if jumpCooldown e > 0 then jumpCooldown e - 1 else jumpCooldown e)\<rparr>"
  by (simp add: update_def getIdleActions_def decrementCooldowns_def Let_def)

theorem death_short_circuit_witness:
  "dead ((fighterAt 150)\<lparr>dead := True\<rparr>) \<and>
   update ((AIController None)\<lparr>attackCooldown := 7, currentAction := Some Attack\<rparr>)
     (fighterAt 0) ((fighterAt 150)\<lparr>dead := True\<rparr>) 5000 (scripted []) =
     (Some Idle,
      (AIController None)\<lparr>attackCooldown := 6, currentAction := Some Attack\<rparr>,
      scripted [])"
  using death_short_circuit [of "fighterAt 0" "(fighterAt 150)\<lparr>dead := True\<rparr>"
      "(AIController None)\<lparr>attackCooldown := 7, currentAction := Some Attack\<rparr>"
      5000 "scripted []"]
  by (simp add: AIController_def Let_def)

section \<open>The difficulty table\<close>

text \<open>
  Claim C5. Configuring a recognised tier gives exactly the row of the fixed table:
  easy has reaction time 1200 and parameters 0.90, 0.60, 190, 320, 0.12, 0.50 and
  cooldown 120 to 120; medium has 400 and 0.28, 0.35, 195, 200, 0.22, 0.25, 180 to 240;
  hard has 150 and 0.38, 0.45, 220, 170, 0.30, 0.12, 90 to 150. Configuring any other
  tier gives the reaction time and the parameters of medium. The constructor computes
  both fields by the same two functions.
\<close>

theorem configure_table:
  "reactionTime (setDifficulty ''easy'' e) = 1200 \<and>
   params (setDifficulty ''easy'' e) =
     \<lparr>aggressiveness = 0.9, defensiveness = 0.6, attackRange = 190,
      comfortDistance = 320, jumpChance = 0.12, mistakes = 0.5,
      attackCooldownMin = 120, attackCooldownMax = 120\<rparr> \<and>
   reactionTime (setDifficulty ''medium'' e) = 400 \<and>
   params (setDifficulty ''medium'' e) =
     \<lparr>aggressiveness = 0.28, defensiveness = 0.35, attackRange = 195,
      comfortDistance = 200, jumpChance = 0.22, mistakes = 0.25,
      attackCooldownMin = 180, attackCooldownMax = 240\<rparr> \<and>
   reactionTime (setDifficulty ''hard'' e) = 150 \<and>
   params (setDifficulty ''hard'' e) =
     \<lparr>aggressiveness = 0.38, defensiveness = 0.45, attackRange = 220,
      comfortDistance = 170, jumpChance = 0.3, mistakes = 0.12,
      attackCooldownMin = 90, attackCooldownMax = 150\<rparr> \<and>
   (d \<notin> {''easy'', ''medium'', ''hard''} \<longrightarrow>
      reactionTime (setDifficulty d e) = reactionTime (setDifficulty ''medium'' e) \<and>
      params (setDifficulty d e) = params (setDifficulty ''medium'' e) \<and>
      reactionTime (AIController (Some d)) = reactionTime (setDifficulty ''medium'' e) \<and>
      params (AIController (Some d)) = params (setDifficulty ''medium'' e))"
  by (simp add: setDifficulty_def AIController_def getReactionTime_def getDifficultyParams_easy
      getDifficultyParams_medium getDifficultyParams_hard getDifficultyParams_default)

theorem configure_table_witness:
  "''nightmare'' \<notin> {''easy'', ''medium'', ''hard''} \<and>
   reactionTime (setDifficulty ''nightmare'' (AIController (Some ''hard''))) = 400 \<and>
   attackCooldownMax (params (setDifficulty ''nightmare'' (AIController (Some ''hard'')))) = 240"
  using configure_table [of "AIController (Some ''hard'')" "''nightmare''"]
  by simp

section \<open>The end-to-end scenario\<close>

text \<open>
  Claim C6. At the medium tier, with the controlled fighter at x = 0 and the opponent at
  x = 150, both of width 40 (so with centres 20 and 170, at distance 150, within the
  attack range 195), neither dead, the controlled fighter not attacking,
  \<open>attackCooldown = 0\<close>, the reaction window over, the mistake roll failing and the
  aggressiveness roll succeeding, \<open>update\<close> returns the attack and sets \<open>attackCooldown\<close>
  to 180 plus 60 times the third draw (which the code rounds to the nearest double), a
  value in \<open>[180, 240]\<close>.
\<close>

theorem end_to_end_attack:
  assumes "difficulty e = ''medium''"
    "params e = getDifficultyParams ''medium''"
    "attackCooldown e = 0"
    "position_x aiPlayer = 0" "width aiPlayer = 40"
    "position_x opponent = 150" "width opponent = 40"
    "\<not> dead aiPlayer" "\<not> dead opponent" "\<not> isAttacking aiPlayer"
    "\<not> currentTime - lastDecisionTime e < reactionTime e"
    "\<not> r 0 < mistakes (params e)" "r 1 < aggressiveness (params e)"
    "0 \<le> r 2" "r 2 < 1"
  shows "actionOf (update e aiPlayer opponent currentTime r) = Some Attack \<and>
    attackCooldown (engineOf (update e aiPlayer opponent currentTime r)) = 180 + r 2 * 60 \<and>
    180 \<le> attackCooldown (engineOf (update e aiPlayer opponent currentTime r)) \<and>
    attackCooldown (engineOf (update e aiPlayer opponent currentTime r)) \<le> 240"
proof -
  have r2: "r (Suc (Suc 0)) = r 2" by (simp add: numeral_2_eq_2)
  from assms show ?thesis
    by (simp add: update_def makeDecision_def attackDecision_def getDistance_def Let_def
        getDifficultyParams_medium r2)
qed


theorem end_to_end_attack_witness:
  "actionOf (update (AIController None) (fighterAt 0) (fighterAt 150) 400
      (scripted [1/2, 1/8, 1/8])) = Some Attack \<and>
   attackCooldown (engineOf (update (AIController None) (fighterAt 0) (fighterAt 150) 400
      (scripted [1/2, 1/8, 1/8]))) = 375 / 2"
  using end_to_end_attack [of "AIController None" "fighterAt 0" "fighterAt 150" 400
      "scripted [1/2, 1/8, 1/8]"]
  by (simp add: AIController_def Let_def getDifficultyParams_medium getReactionTime_def
      fighterAt_def scripted_def)

section \<open>The mistake branch\<close>

text \<open>
  Claim C7. When a decision is computed and the mistake roll succeeds (the first draw
  is below \<open>params.mistakes\<close>), \<open>update\<close> returns one of the six actions idle, move
  left, move right, attack, jump left, jump right, chosen uniformly by the second draw
  \<open>u\<close>, which selects the \<open>k\<close>-th of them when \<open>6 * u\<close> lies from \<open>k\<close> to
  \<open>k + 1 - 1 / 2^50\<close>: six intervals of the same length. (In the last \<open>1 / 2^50\<close> below
  \<open>k + 1\<close> the code's product can round up to \<open>k + 1\<close>; the action is still one of the
  six.) The branch looks at no cooldown and no distance and writes neither
  \<open>attackCooldown\<close> nor \<open>jumpCooldown\<close>, also when the action is an attack or a jump: the
  engine after the call is the engine with its cooldowns decremented, the decision time
  and the current action. The field \<open>params.mistakes\<close> holds a double, as every field of
  the program does: at the hard tier the double nearest to 0.12.
\<close>

theorem mistake_branch:
  assumes "\<not> dead aiPlayer" "\<not> dead opponent" "\<not> isAttacking aiPlayer"
    "\<not> currentTime - lastDecisionTime e < reactionTime e"
    "exactDouble (mistakes (params e))" "r 0 < mistakes (params e)"
    "0 \<le> r 1" "r 1 < 1"
  shows "\<exists>a\<in>set [Idle, Move Left, Move Right, Attack, Jump Left, Jump Right].
      update e aiPlayer opponent currentTime r =
        (Some a,
         (decrementCooldowns e)\<lparr>lastDecisionTime := currentTime, currentAction := Some a\<rparr>,
         \<lambda>n. r (Suc (Suc n))) \<and>
      (\<forall>k<6. real k \<le> r 1 * 6 \<and> r 1 * 6 \<le> real k + 1 - 1 / 2 ^ 50 \<longrightarrow>
         a = [Idle, Move Left, Move Right, Attack, Jump Left, Jump Right] ! k)"
proof -
  let ?xs = "[Idle, Move Left, Move Right, Attack, Jump Left, Jump Right]"
  define i where "i = nat \<lfloor>r 1 * 6\<rfloor>"
  from assms(7,8) have f: "0 \<le> \<lfloor>r 1 * 6\<rfloor>" "\<lfloor>r 1 * 6\<rfloor> < 6"
    by (simp_all add: floor_less_iff)
  then have i: "i < 6" unfolding i_def by linarith
  then have mem: "?xs ! i \<in> set ?xs" by (intro nth_mem) simp
  from assms(1-4,6) f
  have u: "update e aiPlayer opponent currentTime r =
      (Some (?xs ! i),
       (decrementCooldowns e)\<lparr>lastDecisionTime := currentTime, currentAction := Some (?xs ! i)\<rparr>,
       \<lambda>n. r (Suc (Suc n)))"
    by (simp add: update_def makeDecision_def makeRandomAction_def actions_def
        getIdleActions_def Let_def i_def)
  have slot: "?xs ! i = ?xs ! k"
    if "k < 6" "real k \<le> r 1 * 6 \<and> r 1 * 6 \<le> real k + 1 - 1 / 2 ^ 50" for k
  proof -
    from that(2) have "real k \<le> r 1 * 6" "r 1 * 6 < real k + 1" by simp_all
    then have "\<lfloor>r 1 * 6\<rfloor> = int k" by (simp add: floor_eq_iff)
    then show ?thesis by (simp add: i_def)
  qed
  from mem u slot show ?thesis by blast
qed

theorem mistake_branch_witness:
  "actionOf (update ((AIController None)\<lparr>attackCooldown := 50, jumpCooldown := 70\<rparr>)
      (fighterAt 0) (fighterAt 900) 400 (scripted [1/8, 1/2])) = Some Attack \<and>
   attackCooldown (engineOf (update ((AIController None)\<lparr>attackCooldown := 50, jumpCooldown := 70\<rparr>)
      (fighterAt 0) (fighterAt 900) 400 (scripted [1/8, 1/2]))) = 49 \<and>
   jumpCooldown (engineOf (update ((AIController None)\<lparr>attackCooldown := 50, jumpCooldown := 70\<rparr>)
      (fighterAt 0) (fighterAt 900) 400 (scripted [1/8, 1/2]))) = 69 \<and>
   actionOf (update
      ((AIController (Some ''hard''))
         \<lparr>params := (getDifficultyParams ''hard'')\<lparr>mistakes := 1080863910568919 / 2 ^ 53\<rparr>\<rparr>)
      (fighterAt 0) (fighterAt 900) 150 (scripted [1/16, 7/8])) = Some (Jump Right)"
proof -
  let ?xs = "[Idle, Move Left, Move Right, Attack, Jump Left, Jump Right]"
  let ?e = "(AIController None)\<lparr>attackCooldown := 50, jumpCooldown := 70\<rparr>"
  let ?r = "scripted [1/8, 1/2]"
  let ?h = "(AIController (Some ''hard''))
         \<lparr>params := (getDifficultyParams ''hard'')\<lparr>mistakes := 1080863910568919 / 2 ^ 53\<rparr>\<rparr>"
  let ?s = "scripted [1/16, 7/8]"
  have x: "exactDouble (mistakes (params ?e))"
    using exactDouble_intro [of 1 2] by (simp add: AIController_def Let_def getDifficultyParams_medium)
  have "\<exists>a\<in>set ?xs.
      update ?e (fighterAt 0) (fighterAt 900) 400 ?r =
        (Some a, (decrementCooldowns ?e)\<lparr>lastDecisionTime := 400, currentAction := Some a\<rparr>,
         \<lambda>n. ?r (Suc (Suc n))) \<and>
      (\<forall>k<6. real k \<le> ?r 1 * 6 \<and> ?r 1 * 6 \<le> real k + 1 - 1 / 2 ^ 50 \<longrightarrow> a = ?xs ! k)"
    using x
    by (intro mistake_branch)
      (simp_all add: AIController_def Let_def getDifficultyParams_medium getReactionTime_def
        fighterAt_def scripted_def)
  then obtain a where u: "update ?e (fighterAt 0) (fighterAt 900) 400 ?r =
        (Some a, (decrementCooldowns ?e)\<lparr>lastDecisionTime := 400, currentAction := Some a\<rparr>,
         \<lambda>n. ?r (Suc (Suc n)))"
    and k: "\<forall>k<6. real k \<le> ?r 1 * 6 \<and> ?r 1 * 6 \<le> real k + 1 - 1 / 2 ^ 50 \<longrightarrow> a = ?xs ! k"
    by blast
  from k [rule_format, of 3] have a: "a = Attack" by (simp add: scripted_def)
  have y: "exactDouble (mistakes (params ?h))"
    using exactDouble_intro [of 1080863910568919 53] by simp
  have "\<exists>a\<in>set ?xs.
      update ?h (fighterAt 0) (fighterAt 900) 150 ?s =
        (Some a, (decrementCooldowns ?h)\<lparr>lastDecisionTime := 150, currentAction := Some a\<rparr>,
         \<lambda>n. ?s (Suc (Suc n))) \<and>
      (\<forall>k<6. real k \<le> ?s 1 * 6 \<and> ?s 1 * 6 \<le> real k + 1 - 1 / 2 ^ 50 \<longrightarrow> a = ?xs ! k)"
    using y
    by (intro mistake_branch)
      (simp_all add: AIController_def Let_def getReactionTime_def fighterAt_def scripted_def)
  then obtain b where v: "update ?h (fighterAt 0) (fighterAt 900) 150 ?s =
        (Some b, (decrementCooldowns ?h)\<lparr>lastDecisionTime := 150, currentAction := Some b\<rparr>,
         \<lambda>n. ?s (Suc (Suc n)))"
    and j: "\<forall>k<6. real k \<le> ?s 1 * 6 \<and> ?s 1 * 6 \<le> real k + 1 - 1 / 2 ^ 50 \<longrightarrow> b = ?xs ! k"
    by blast
  from j [rule_format, of 5] have b: "b = Jump Right" by (simp add: scripted_def)
  from u a v b show ?thesis by (simp add: AIController_def Let_def)
qed

section \<open>Determinism under fixed randomness\<close>

text \<open>
  Claim C8. With the random source an explicit input, \<open>update\<close> is a function of the
  engine state, the two fighters, the clock and the draws: two runs of the game loop
  from the same engine state on the same frames, with sources that give the same draws
  (a call reads at most 7 of them), return the same actions and end in the same engine
  state.
\<close>

theorem update_deterministic:
  "agree (7 * length fs) r1 r2 \<Longrightarrow>
   fst (run e fs r1) = fst (run e fs r2) \<and>
   engineOf (run e fs r1) = engineOf (run e fs r2)"
  using agree_run [of fs 0 r1 r2 e] by (simp add: sameUpTo_def)

theorem update_deterministic_witness:
  "agree (7 * length [(fighterAt 0, fighterAt 150, 400 :: real)])
     (scripted [1/2, 1/8, 1/128]) (\<lambda>n. if n < 7 then scripted [1/2, 1/8, 1/128] n else 1/2) \<and>
   fst (run (AIController None) [(fighterAt 0, fighterAt 150, 400)]
          (scripted [1/2, 1/8, 1/128])) =
   fst (run (AIController None) [(fighterAt 0, fighterAt 150, 400)]
          (\<lambda>n. if n < 7 then scripted [1/2, 1/8, 1/128] n else 1/2))"
  using update_deterministic [of "[(fighterAt 0, fighterAt 150, 400)]"
      "scripted [1/2, 1/8, 1/128]" "\<lambda>n. if n < 7 then scripted [1/2, 1/8, 1/128] n else 1/2"
      "AIController None"]
  by (simp add: agree_def)


section \<open>The jump cooldown\<close>

text \<open>
  Claim C9. \<open>jumpCooldown\<close> starts at 0, and in every reachable engine state it is a
  whole number between 0 and 120: the only writes are the constant 120 and a decrement
  by 1 while it is positive, so it is never fractional and never negative. Once it is
  120, after \<open>j < 120\<close> further calls it is \<open>120 - j\<close>, whatever the frames and draws,
  and the next call decrements it to \<open>119 - j\<close> before its test \<open>jumpCooldown === 0\<close>:
  the test sees a positive number on the first 119 further calls and sees 0 again on
  the 120th.
\<close>

theorem jumpCooldown_range:
  "reachable e \<Longrightarrow>
   jumpCooldown (AIController arg) = 0 \<and>
   (\<exists>n\<le>120. jumpCooldown e = real n) \<and>
   (jumpCooldown e = 120 \<and> length fs < 120 \<longrightarrow>
      jumpCooldown (engineOf (run e fs r)) = 120 - real (length fs) \<and>
      jumpCooldown (decrementCooldowns (engineOf (run e fs r))) = 119 - real (length fs))"
proof (intro conjI impI)
  show "jumpCooldown (AIController arg) = 0" by (simp add: AIController_def Let_def)
next
  assume "reachable e"
  then show "\<exists>n\<le>120. jumpCooldown e = real n" by (rule reachable_jumpCooldown)
next
  assume a: "jumpCooldown e = 120 \<and> length fs < 120"
  then have "jumpCooldown e = real 120" by simp
  from jumpCooldown_countdown [OF this, of fs r] a
  show c: "jumpCooldown (engineOf (run e fs r)) = 120 - real (length fs)" by simp
  from a have "real (length fs) < 120" by simp
  with c show "jumpCooldown (decrementCooldowns (engineOf (run e fs r))) = 119 - real (length fs)"
    by simp
qed


theorem jumpCooldown_range_witness:
  "reachable (engineOf (update (AIController None) (fighterAt 0) (fighterAt 50) 400
      (scripted [1/2, 1/2, 1/8]))) \<and>
   jumpCooldown (engineOf (update (AIController None) (fighterAt 0) (fighterAt 50) 400
      (scripted [1/2, 1/2, 1/8]))) = 120 \<and>
   jumpCooldown (decrementCooldowns (engineOf (run
      (engineOf (update (AIController None) (fighterAt 0) (fighterAt 50) 400
         (scripted [1/2, 1/2, 1/8])))
      [(fighterAt 0, fighterAt 50, 416), (fighterAt 0, fighterAt 50, 432)]
      (scripted [])))) = 117"
proof -
  have r: "reachable (engineOf (update (AIController None) (fighterAt 0) (fighterAt 50) 400
      (scripted [1/2, 1/2, 1/8])))"
    by (intro reach_update reach_new)
  from r jumpCooldown_range [of
      "engineOf (update (AIController None) (fighterAt 0) (fighterAt 50) 400
         (scripted [1/2, 1/2, 1/8]))"
      None "[(fighterAt 0, fighterAt 50, 416), (fighterAt 0, fighterAt 50, 432)]" "scripted []",
      OF r]
  show ?thesis
    by (simp add: first_jump del: run.simps)
qed

section \<open>Before the first decision\<close>

text \<open>
  Claim C10. An engine with \<open>lastDecisionTime = 0\<close> and \<open>currentAction = null\<close>, as the
  constructor leaves it, returns the idle action on every call whose clock is below
  \<open>reactionTime\<close>; such a call computes no decision (it reads no draw) and leaves
  \<open>currentAction\<close> and \<open>lastDecisionTime\<close> as they are. So no other action is returned
  before the clock reaches \<open>reactionTime\<close>, 1200 at the easy tier, even with both
  fighters alive and within attack range.
\<close>

theorem idle_before_reactionTime:
  "lastDecisionTime e = 0 \<Longrightarrow> currentAction e = None \<Longrightarrow>
   \<forall>f\<in>set fs. clockOf f < reactionTime e \<Longrightarrow>
   fst (run e fs r) = replicate (length fs) (Some Idle) \<and>
   lastDecisionTime (engineOf (run e fs r)) = 0 \<and>
   currentAction (engineOf (run e fs r)) = None \<and>
   rngOf (run e fs r) = r"
proof (induction fs arbitrary: e)
  case Nil
  then show ?case by simp
next
  case (Cons f fs)
  obtain a o' t where f: "f = (a, o', t)" by (cases f)
  with Cons.prems have t: "t < reactionTime e" by (simp add: clockOf_def)
  have u: "update e a o' t r = (Some Idle, decrementCooldowns e, r)"
    using Cons.prems(1,2) t by (rule update_before_first_decision)
  have "\<forall>f\<in>set fs. clockOf f < reactionTime (decrementCooldowns e)"
    using Cons.prems(3) by simp
  from Cons.IH [of "decrementCooldowns e", OF _ _ this] Cons.prems(1,2)
  show ?case by (simp add: f u run_Cons del: run.simps)
qed


theorem idle_before_reactionTime_witness:
  "clockOf (fighterAt 0, fighterAt 150, 1199) < reactionTime (AIController (Some ''easy'')) \<and>
   getDistance (fighterAt 0) (fighterAt 150) < attackRange (params (AIController (Some ''easy''))) \<and>
   fst (run (AIController (Some ''easy''))
      [(fighterAt 0, fighterAt 150, 0), (fighterAt 0, fighterAt 150, 600),
       (fighterAt 0, fighterAt 150, 1199)] (scripted [7/8, 1/2, 1/2])) =
     [Some Idle, Some Idle, Some Idle]"
  using idle_before_reactionTime [of "AIController (Some ''easy'')"
      "[(fighterAt 0, fighterAt 150, 0), (fighterAt 0, fighterAt 150, 600),
        (fighterAt 0, fighterAt 150, 1199)]" "scripted [7/8, 1/2, 1/2]"]
  by (simp add: AIController_def Let_def getReactionTime_def clockOf_def getDifficultyParams_easy
      getDistance_def fighterAt_def del: run.simps)

end
